theory Spec2Isabelle
  imports Main "HOL-Library.AList" "HOL-Library.Char_ord" "HOL-Library.List_Lexorder"
    "HOL-Library.Word"
begin

section \<open>The course advising program: data model\<close>

text \<open>
  \<^verbatim>\<open>struct Course { std::string courseNumber; std::string title;
                  std::vector<std::string> prerequisites; };\<close>
  A \<open>std::string\<close> is a sequence of bytes, here a \<open>string\<close> (a list of 8-bit \<open>char\<close>).
\<close>

record Course =
  courseNumber :: string
  title :: string
  prerequisites :: "string list"

text \<open>
  \<^verbatim>\<open>using CourseTable = std::unordered_map<std::string, Course>;\<close>
  The table is an association list. \<open>find\<close> is the lookup of a key, \<open>operator[]\<close> followed by
  an assignment stores a record under a key (a new key is added, an old one overwritten), and
  iterating the table visits the entries in list order. The source never relies on the
  iteration order of the hash table: the only iteration is followed by a sort.
\<close>

type_synonym CourseTable = "(string \<times> Course) list"

definition table_find :: "CourseTable \<Rightarrow> string \<Rightarrow> Course option" where
  "table_find coursesTable k = map_of coursesTable k"

definition table_assign :: "CourseTable \<Rightarrow> string \<Rightarrow> Course \<Rightarrow> CourseTable" where
  "table_assign coursesTable k c = AList.update k c coursesTable"

text \<open>\<open>std::unordered_map::at\<close> throws \<open>std::out_of_range\<close> for a key that is not there.\<close>

datatype exception = out_of_range

definition table_at :: "CourseTable \<Rightarrow> string \<Rightarrow> exception + Course" where
  "table_at coursesTable k =
     (case map_of coursesTable k of None \<Rightarrow> Inl out_of_range | Some c \<Rightarrow> Inr c)"

text \<open>
  What the loader writes to \<open>std::cerr\<close>, one value per message:
  \<^item> \<open>CouldNotOpen f\<close>: "ERROR: Could not open file: f";
  \<^item> \<open>BadFormat n\<close>: "ERROR: Bad format on line n (skipping line)";
  \<^item> \<open>MissingField n\<close>: "ERROR: Missing courseNumber/title on line n (skipping line)";
  \<^item> \<open>DuplicateCourse k n\<close>: "ERROR: Duplicate courseNumber 'k' on line n (skipping line)";
  \<^item> \<open>InvalidPrereq n p k\<close>: "ERROR: Line n invalid prerequisite 'p' for course 'k'
    (skipping course)".
  The number in a message is the value of the \<open>int\<close> line counter as \<open>operator<<\<close> prints it.
\<close>

datatype diagnostic =
    CouldNotOpen string
  | BadFormat int
  | MissingField int
  | DuplicateCourse string int
  | InvalidPrereq int string string

text \<open>
  What the two queries write to \<open>std::cout\<close>, one value per line:
  \<^item> \<open>NoCourseData\<close>: "No course data loaded.";
  \<^item> \<open>CourseLine k t\<close>: "k, t";
  \<^item> \<open>CourseNotFound k\<close>: "Course not found: k";
  \<^item> \<open>PrereqNone\<close>: "Prerequisites: None";
  \<^item> \<open>PrereqHeader\<close>: "Prerequisites:";
  \<^item> \<open>PrereqLine k t\<close>: "  k, t";
  \<^item> \<open>PrereqMissing k\<close>: "  k (missing info)".
\<close>

datatype out_line =
    NoCourseData
  | CourseLine string string
  | CourseNotFound string
  | PrereqNone
  | PrereqHeader
  | PrereqLine string string
  | PrereqMissing string

section \<open>Utility helpers\<close>

text \<open>
  The program never calls \<open>setlocale\<close>, so \<open>std::isspace\<close> and \<open>std::toupper\<close> are those of
  the "C" locale: the white-space characters are the space and the bytes 9 to 13 (tab, line
  feed, vertical tab, form feed, carriage return), and only the letters a to z have an upper
  case.
\<close>

definition isspace :: "char \<Rightarrow> bool" where
  "isspace ch = (let n = (of_char ch :: nat) in n = 32 \<or> (9 \<le> n \<and> n \<le> 13))"

definition toupper :: "char \<Rightarrow> char" where
  "toupper ch = (let n = (of_char ch :: nat) in
                   if 97 \<le> n \<and> n \<le> 122 then char_of (n - 32) else ch)"

text \<open>
  \<^verbatim>\<open>size_t start = 0;
  while (start < s.size() && isspace(s[start])) start++;
  size_t end = s.size();
  while (end > start && isspace(s[end - 1])) end--;
  return s.substr(start, end - start);\<close>
  The first loop skips the leading white space; the second one walks back from the end of
  what is left.
\<close>

definition trim :: "string \<Rightarrow> string" where
  "trim s = rev (dropWhile isspace (rev (dropWhile isspace s)))"

definition normalizeCourseNumber :: "string \<Rightarrow> string" where
  "normalizeCourseNumber s = map toupper (trim s)"

text \<open>
  One call of \<open>std::getline(stream, token, delim)\<close> on a stream with the characters \<open>s\<close> left:
  the characters up to the first delimiter are the token, the delimiter is taken from the
  stream and dropped; without a delimiter the token is everything that is left.
  The result is the token and what remains in the stream.
\<close>

fun getline :: "char \<Rightarrow> string \<Rightarrow> string \<times> string" where
  "getline delim [] = ([], [])"
| "getline delim (ch # s) =
     (if ch = delim then ([], s)
      else (case getline delim s of (token, rest) \<Rightarrow> (ch # token, rest)))"

text \<open>
  \<^verbatim>\<open>while (std::getline(stream, token, delim)) { ... }\<close>
  The tokens the loop body sees, in order. A call that extracts no character at all (nothing
  is left in the stream) fails and ends the loop; in particular nothing follows a delimiter
  that is the last character.
\<close>

function getline_loop :: "char \<Rightarrow> string \<Rightarrow> string list" where
  "getline_loop delim [] = []"
| "getline_loop delim (ch # s) =
     (case getline delim (ch # s) of (token, rest) \<Rightarrow> token # getline_loop delim rest)"
  by pat_completeness auto
termination
proof (relation "measure (\<lambda>(delim, s). length s)", goal_cases)
  case 1
  show ?case by simp
next
  case (2 delim ch s token rest)
  have shorter: "length (snd (getline d t)) \<le> length t" for d t
    by (induction t) (auto split: prod.splits)
  from 2 have "getline delim (ch # s) = (token, rest)" by simp
  with shorter [of delim s] have "length rest < Suc (length s)"
    by (auto split: if_splits prod.splits)
  then show ?case by simp
qed

text \<open>
  \<^verbatim>\<open>while (std::getline(ss, token, ',')) tokens.push_back(trim(token));
  if (!line.empty() && line.back() == ',') tokens.push_back("");\<close>
\<close>

definition splitByComma :: "string \<Rightarrow> string list" where
  "splitByComma line =
     (let tokens = map trim (getline_loop CHR '','' line)
      in if line \<noteq> [] \<and> last line = CHR '','' then tokens @ [[]] else tokens)"

section \<open>Loading\<close>

text \<open>
  The first loop over the tokens from index 2 on: the result is the prerequisite that is
  reported as invalid (\<open>prereqIsValid\<close> has become false and the loop is left), or \<open>None\<close>
  when \<open>prereqIsValid\<close> is still true at the end.
\<close>

fun validatePrereqs :: "string set \<Rightarrow> string list \<Rightarrow> string option" where
  "validatePrereqs allCourseNumbers [] = None"
| "validatePrereqs allCourseNumbers (tok # toks) =
     (let prereq = normalizeCourseNumber tok in
      if prereq = [] then validatePrereqs allCourseNumbers toks
      else if prereq \<notin> allCourseNumbers then Some prereq
      else validatePrereqs allCourseNumbers toks)"

text \<open>The second loop over the same tokens fills \<open>c.prerequisites\<close>.\<close>

fun buildPrereqs :: "string list \<Rightarrow> string list" where
  "buildPrereqs [] = []"
| "buildPrereqs (tok # toks) =
     (let prereq = normalizeCourseNumber tok in
      if prereq \<noteq> [] then prereq # buildPrereqs toks else buildPrereqs toks)"

text \<open>
  The body of the loop of pass 1, on one line of the file. The state is the set of course
  numbers seen so far, the line counter and what has been written to \<open>std::cerr\<close>.

  \<open>int lineNumber\<close> is a 32-bit word, read as a signed number (\<open>sint\<close>) where it is
  printed. \<open>lineNumber++\<close> on the value 2147483647, which the line 2147483648 of a file
  reaches, is a signed overflow: the C++ standard leaves it undefined, and the word takes
  the two's-complement wrap-around to -2147483648. A file of fewer than 2147483648 lines
  never gets there.
\<close>

definition pass1_body ::
  "string \<Rightarrow> string set \<times> 32 word \<times> diagnostic list
     \<Rightarrow> string set \<times> 32 word \<times> diagnostic list" where
  "pass1_body line st =
     (case st of (allCourseNumbers, n, cerr) \<Rightarrow>
        let lineNumber = n + 1 in
        if trim line = [] then (allCourseNumbers, lineNumber, cerr)
        else
          let tokens = splitByComma line in
          if length tokens < 2
          then (allCourseNumbers, lineNumber, cerr @ [BadFormat (sint lineNumber)])
          else
            let courseNum = normalizeCourseNumber (tokens ! 0);
                title = trim (tokens ! 1) in
            if courseNum = [] \<or> title = []
            then (allCourseNumbers, lineNumber, cerr @ [MissingField (sint lineNumber)])
            else if courseNum \<in> allCourseNumbers
            then (allCourseNumbers, lineNumber,
                  cerr @ [DuplicateCourse courseNum (sint lineNumber)])
            else (insert courseNum allCourseNumbers, lineNumber, cerr))"

primrec pass1_loop ::
  "string list \<Rightarrow> string set \<times> 32 word \<times> diagnostic list
     \<Rightarrow> string set \<times> 32 word \<times> diagnostic list" where
  "pass1_loop [] st = st"
| "pass1_loop (line # lines) st = pass1_loop lines (pass1_body line st)"

text \<open>
  The body of the loop of pass 2. The state is the table, the line counter and
  \<open>std::cerr\<close>; the set of pass 1 is only read.
\<close>

definition pass2_body ::
  "string set \<Rightarrow> string \<Rightarrow> CourseTable \<times> 32 word \<times> diagnostic list
     \<Rightarrow> CourseTable \<times> 32 word \<times> diagnostic list" where
  "pass2_body allCourseNumbers line st =
     (case st of (coursesTable, n, cerr) \<Rightarrow>
        let lineNumber = n + 1 in
        if trim line = [] then (coursesTable, lineNumber, cerr)
        else
          let tokens = splitByComma line in
          if length tokens < 2
          then (coursesTable, lineNumber, cerr @ [BadFormat (sint lineNumber)])
          else
            let courseNum = normalizeCourseNumber (tokens ! 0);
                title = trim (tokens ! 1) in
            if courseNum = [] \<or> title = []
            then (coursesTable, lineNumber, cerr @ [MissingField (sint lineNumber)])
            else
              (case validatePrereqs allCourseNumbers (drop 2 tokens) of
                 Some prereq \<Rightarrow>
                   (coursesTable, lineNumber,
                    cerr @ [InvalidPrereq (sint lineNumber) prereq courseNum])
               | None \<Rightarrow>
                   let c = \<lparr>courseNumber = courseNum, title = title,
                            prerequisites = buildPrereqs (drop 2 tokens)\<rparr> in
                   if table_find coursesTable (courseNumber c) = None
                   then (table_assign coursesTable (courseNumber c) c, lineNumber, cerr)
                   else (coursesTable, lineNumber, cerr)))"

primrec pass2_loop ::
  "string set \<Rightarrow> string list \<Rightarrow> CourseTable \<times> 32 word \<times> diagnostic list
     \<Rightarrow> CourseTable \<times> 32 word \<times> diagnostic list" where
  "pass2_loop allCourseNumbers [] st = st"
| "pass2_loop allCourseNumbers (line # lines) st =
     pass2_loop allCourseNumbers lines (pass2_body allCourseNumbers line st)"

text \<open>
  The body of \<open>loadCoursesFromFile\<close>. Each pass constructs its own
  \<open>std::ifstream in(fileName)\<close>; \<open>in1\<close> and \<open>in2\<close> are what the two constructions find:
  \<open>None\<close> for a stream that is not open, else the characters that \<open>std::getline\<close> can read
  from it (a stream that fails while it is read delivers what came before the failure, and
  none at all when nothing can be read). \<open>std::getline(in, line)\<close> reads the lines, which end
  at a line feed. The result is the table the function returns and what it has written to
  \<open>std::cerr\<close>.
\<close>

definition loadCoursesFromStreams ::
  "string option \<Rightarrow> string option \<Rightarrow> string \<Rightarrow> CourseTable \<times> diagnostic list" where
  "loadCoursesFromStreams in1 in2 fileName =
     (case in1 of
        None \<Rightarrow> ([], [CouldNotOpen fileName])
      | Some content1 \<Rightarrow>
          (case pass1_loop (getline_loop (CHR 0x0A) content1) ({}, 0, []) of
             (allCourseNumbers, n1, cerr1) \<Rightarrow>
               (case in2 of
                  None \<Rightarrow> ([], cerr1 @ [CouldNotOpen fileName])
                | Some content2 \<Rightarrow>
                    (case pass2_loop allCourseNumbers (getline_loop (CHR 0x0A) content2)
                            ([], 0, cerr1) of
                       (coursesTable, n2, cerr2) \<Rightarrow> (coursesTable, cerr2)))))"

text \<open>
  The loader on a file system that nothing changes while it runs: a function from file
  names to the contents of the file, \<open>None\<close> for a file that cannot be opened. Both passes
  then open the same file.
\<close>

definition loadCoursesFromFile ::
  "(string \<Rightarrow> string option) \<Rightarrow> string \<Rightarrow> CourseTable \<times> diagnostic list" where
  "loadCoursesFromFile fs fileName =
     loadCoursesFromStreams (fs fileName) (fs fileName) fileName"

section \<open>Queries\<close>

text \<open>
  \<^verbatim>\<open>for (const auto& num : courseNums) {
      const Course& c = coursesTable.at(num);
      std::cout << c.courseNumber << ", " << c.title << "\n"; }\<close>
\<close>

fun printCourses :: "CourseTable \<Rightarrow> string list \<Rightarrow> exception + out_line list" where
  "printCourses coursesTable [] = Inr []"
| "printCourses coursesTable (num # nums) =
     (case table_at coursesTable num of
        Inl e \<Rightarrow> Inl e
      | Inr c \<Rightarrow>
          (case printCourses coursesTable nums of
             Inl e \<Rightarrow> Inl e
           | Inr out \<Rightarrow> Inr (CourseLine (courseNumber c) (title c) # out)))"

text \<open>\<open>std::sort\<close> on strings orders them by \<open>operator<\<close>, the lexicographic order of the bytes.\<close>

definition printCourseListSorted :: "CourseTable \<Rightarrow> exception + out_line list" where
  "printCourseListSorted coursesTable =
     (if coursesTable = [] then Inr [NoCourseData]
      else
        let courseNums = map fst coursesTable in
        printCourses coursesTable (sort courseNums))"

fun printPrereqs :: "CourseTable \<Rightarrow> string list \<Rightarrow> out_line list" where
  "printPrereqs coursesTable [] = []"
| "printPrereqs coursesTable (prereqNum # prereqNums) =
     (case table_find coursesTable prereqNum of
        Some pc \<Rightarrow> PrereqLine (courseNumber pc) (title pc) # printPrereqs coursesTable prereqNums
      | None \<Rightarrow> PrereqMissing prereqNum # printPrereqs coursesTable prereqNums)"

definition printCourseInfo :: "CourseTable \<Rightarrow> string \<Rightarrow> out_line list" where
  "printCourseInfo coursesTable inputCourseNumber =
     (if coursesTable = [] then [NoCourseData]
      else
        let courseNum = normalizeCourseNumber inputCourseNumber in
        (case table_find coursesTable courseNum of
           None \<Rightarrow> [CourseNotFound courseNum]
         | Some course \<Rightarrow>
             CourseLine (courseNumber course) (title course) #
               (if prerequisites course = [] then [PrereqNone]
                else PrereqHeader # printPrereqs coursesTable (prerequisites course))))"

section \<open>The record validator and the accepted courses\<close>

text \<open>
  The validator of the design, on the tokens of one line: fewer than two tokens are
  rejected, an empty normalized key or an empty trimmed title is rejected, and the remaining
  tokens are the prerequisite keys, normalized, the empty ones dropped. It looks at one line
  only. Both passes of the loader repeat these checks inline; the lemmas below relate them.
\<close>

definition validate :: "string list \<Rightarrow> Course option" where
  "validate tokens =
     (if length tokens < 2 then None
      else if normalizeCourseNumber (tokens ! 0) = [] \<or> trim (tokens ! 1) = [] then None
      else Some \<lparr>courseNumber = normalizeCourseNumber (tokens ! 0),
                  title = trim (tokens ! 1),
                  prerequisites = filter (\<lambda>p. p \<noteq> []) (map normalizeCourseNumber (drop 2 tokens))\<rparr>)"

text \<open>A blank line is skipped before it is tokenized; any other line is validated.\<close>

definition validate_line :: "string \<Rightarrow> Course option" where
  "validate_line line = (if trim line = [] then None else validate (splitByComma line))"

text \<open>The lines of a file, as \<open>std::getline(in, line)\<close> delivers them.\<close>

definition file_lines :: "string \<Rightarrow> string list" where
  "file_lines content = getline_loop (CHR 0x0A) content"

text \<open>The set \<open>allCourseNumbers\<close> at the end of pass 1 over the given lines.\<close>

definition declared_keys :: "string list \<Rightarrow> string set" where
  "declared_keys lines = fst (pass1_loop lines ({}, 0, []))"

text \<open>
  The courses that pass 2 accepts: the candidates of the validated lines, in file order,
  whose prerequisites are all in the given key set.
\<close>

definition accepted :: "string set \<Rightarrow> string list \<Rightarrow> Course list" where
  "accepted keys lines =
     filter (\<lambda>c. set (prerequisites c) \<subseteq> keys) (List.map_filter validate_line lines)"

text \<open>The guarded insertion at the end of the body of pass 2.\<close>

definition insert_new :: "CourseTable \<Rightarrow> Course \<Rightarrow> CourseTable" where
  "insert_new coursesTable c =
     (if table_find coursesTable (courseNumber c) = None
      then table_assign coursesTable (courseNumber c) c
      else coursesTable)"

text \<open>What the line counter shows, as a signed number, after \<open>k\<close> increments from 0.\<close>

definition line_number :: "nat \<Rightarrow> int" where
  "line_number k = sint (word_of_nat k :: 32 word)"

text \<open>
  The message for one line, from the line alone and its number. Both passes report a line
  with fewer than two tokens as a bad format, and a line with an empty key or an empty title
  as a missing field; a blank line is skipped in silence.
\<close>

definition format_diagnostic :: "int \<Rightarrow> string \<Rightarrow> diagnostic option" where
  "format_diagnostic lineNumber line =
     (if trim line = [] then None
      else if length (splitByComma line) < 2 then Some (BadFormat lineNumber)
      else if normalizeCourseNumber (splitByComma line ! 0) = [] \<or>
              trim (splitByComma line ! 1) = []
      then Some (MissingField lineNumber)
      else None)"

text \<open>
  Pass 1 reports in addition a line that validates when its key is among the keys that
  earlier lines have declared.
\<close>

definition pass1_diagnostic :: "string set \<Rightarrow> int \<Rightarrow> string \<Rightarrow> diagnostic option" where
  "pass1_diagnostic seen lineNumber line =
     (case validate_line line of
        None \<Rightarrow> format_diagnostic lineNumber line
      | Some c \<Rightarrow>
          if courseNumber c \<in> seen then Some (DuplicateCourse (courseNumber c) lineNumber)
          else None)"

text \<open>
  Pass 2 reports in addition a line that validates when one of its prerequisites is not in
  the key set; the message names the first such prerequisite.
\<close>

definition pass2_diagnostic :: "string set \<Rightarrow> int \<Rightarrow> string \<Rightarrow> diagnostic option" where
  "pass2_diagnostic keys lineNumber line =
     (case validate_line line of
        None \<Rightarrow> format_diagnostic lineNumber line
      | Some c \<Rightarrow>
          (case List.find (\<lambda>p. p \<notin> keys) (prerequisites c) of
             None \<Rightarrow> None
           | Some p \<Rightarrow> Some (InvalidPrereq lineNumber p (courseNumber c))))"

text \<open>
  The messages of a whole pass, line by line: the message of the line at index \<open>i\<close> depends
  on that line, on its number \<open>i + 1\<close> as the counter shows it and, in pass 1, on the keys
  that the lines before it have declared.
\<close>

definition pass1_diagnostics :: "string list \<Rightarrow> diagnostic list" where
  "pass1_diagnostics lines =
     List.map_filter
       (\<lambda>i. pass1_diagnostic (declared_keys (take i lines)) (line_number (Suc i)) (lines ! i))
       [0..<length lines]"

definition pass2_diagnostics :: "string set \<Rightarrow> string list \<Rightarrow> diagnostic list" where
  "pass2_diagnostics keys lines =
     List.map_filter (\<lambda>i. pass2_diagnostic keys (line_number (Suc i)) (lines ! i))
       [0..<length lines]"

text \<open>The (key, title) pairs among the lines a query has printed.\<close>

fun course_lines :: "out_line list \<Rightarrow> (string \<times> string) list" where
  "course_lines [] = []"
| "course_lines (CourseLine k t # out) = (k, t) # course_lines out"
| "course_lines (other # out) = course_lines out"

text \<open>A character is a lower-case letter when it is one of the bytes a to z.\<close>

definition is_lower :: "char \<Rightarrow> bool" where
  "is_lower ch = (97 \<le> (of_char ch :: nat) \<and> (of_char ch :: nat) \<le> 122)"

text \<open>
  A listing of a table is in order when the query has printed its lines (it has not
  thrown), there is one (key, title) pair per entry of the table, each pair is the key and
  the title of an entry, and the keys printed are the keys of the table in non-decreasing
  order. Strings are ordered as \<open>std::string\<close> orders them: lexicographically, byte by byte,
  a proper prefix first.
\<close>

definition sorted_listing :: "CourseTable \<Rightarrow> exception + out_line list \<Rightarrow> bool" where
  "sorted_listing tbl res =
     (case res of
        Inl e \<Rightarrow> False
      | Inr out \<Rightarrow>
          length (course_lines out) = length tbl \<and>
          sorted (map fst (course_lines out)) \<and>
          map fst (course_lines out) = sort (map fst tbl) \<and>
          set (course_lines out) \<subseteq> (\<lambda>(k, c). (k, title c)) ` set tbl)"

text \<open>A file system with a single readable file.\<close>

definition one_file :: "string \<Rightarrow> string \<Rightarrow> string \<Rightarrow> string option" where
  "one_file name content fileName = (if fileName = name then Some content else None)"

text \<open>
  The lines of a small course file: a course without prerequisites, a course whose
  prerequisite is declared, a course with an undeclared prerequisite, and a second
  declaration of the first key in lower case.
\<close>

definition sample_lines :: "string list" where
  "sample_lines =
     [''CS101, Intro,'', ''CS201, Data, CS101'', ''CS300, Algo, CS201,CS999'', ''cs101, Dup,'']"

definition sample_content :: string where
  "sample_content = concat (map (\<lambda>line. line @ [CHR 0x0A]) sample_lines)"

definition sample_fs :: "string \<Rightarrow> string option" where
  "sample_fs = one_file ''courses.csv'' sample_content"

definition sample_cs101 :: Course where
  "sample_cs101 = \<lparr>courseNumber = ''CS101'', title = ''Intro'', prerequisites = []\<rparr>"

definition sample_cs201 :: Course where
  "sample_cs201 = \<lparr>courseNumber = ''CS201'', title = ''Data'', prerequisites = [''CS101'']\<rparr>"

definition sample_cs300 :: Course where
  "sample_cs300 =
     \<lparr>courseNumber = ''CS300'', title = ''Algo'', prerequisites = [''CS201'', ''CS999'']\<rparr>"

text \<open>A file in which the key of the second line is declared again on the third.\<close>

definition duplicate_content :: string where
  "duplicate_content =
     ''CS201, Data, CS101'' @ [CHR 0x0A] @ ''CS101, Intro,'' @ [CHR 0x0A] @
     ''cs101, Dup,'' @ [CHR 0x0A]"

definition sample_dup :: Course where
  "sample_dup = \<lparr>courseNumber = ''CS101'', title = ''Dup'', prerequisites = []\<rparr>"

text \<open>
  A file with a line of one token, a blank line, a line without a key and a good line.
\<close>

definition ragged_content :: string where
  "ragged_content =
     ''JUNK'' @ [CHR 0x0A] @ [CHR 0x0A] @ '',NoKey'' @ [CHR 0x0A] @ ''CS1,A'' @ [CHR 0x0A]"

text \<open>A file whose first course names a prerequisite that pass 2 rejects.\<close>

definition dangling_content :: string where
  "dangling_content = ''A,T,B'' @ [CHR 0x0A] @ ''B,U,Z'' @ [CHR 0x0A]"

section \<open>Characters, trimming and normalization\<close>

lemma isspace_toupper: "isspace (toupper ch) = isspace ch"
  by (auto simp: isspace_def toupper_def Let_def)

lemma toupper_idem: "toupper (toupper ch) = toupper ch"
  by (auto simp: toupper_def Let_def)

lemma toupper_not_lower: "\<not> is_lower (toupper ch)"
  by (auto simp: toupper_def Let_def is_lower_def)

lemma comma_not_space: "\<not> isspace CHR '',''"
  by (simp add: isspace_def)

lemma trim_eq_Nil_iff: "trim s = [] \<longleftrightarrow> (\<forall>ch\<in>set s. isspace ch)"
proof
  assume "trim s = []"
  then have "\<forall>ch\<in>set (dropWhile isspace s). isspace ch"
    by (simp add: trim_def dropWhile_eq_Nil_conv)
  then have "dropWhile isspace s = []"
    using hd_dropWhile [of isspace s] hd_in_set [of "dropWhile isspace s"] by blast
  then show "\<forall>ch\<in>set s. isspace ch" by (simp add: dropWhile_eq_Nil_conv)
next
  assume "\<forall>ch\<in>set s. isspace ch"
  then have d: "dropWhile isspace s = []" by (simp add: dropWhile_eq_Nil_conv)
  show "trim s = []" unfolding trim_def d by simp
qed

lemma trim_fixed: 
  assumes "s = [] \<or> (\<not> isspace (hd s) \<and> \<not> isspace (last s))"
  shows "trim s = s"
proof (cases s)
  case Nil then show ?thesis by (simp add: trim_def)
next
  case (Cons a t)
  with assms have a: "\<not> isspace a" and l: "\<not> isspace (last s)" by auto
  from a Cons have "dropWhile isspace s = s" by simp
  moreover have "s \<noteq> []" using Cons by simp
  with l have "\<not> isspace (hd (rev s))" by (simp add: hd_rev)
  then have "dropWhile isspace (rev s) = rev s"
    by (simp only: dropWhile_eq_self_iff) simp
  ultimately show ?thesis by (simp add: trim_def)
qed

lemma trim_ends:
  "trim s = [] \<or> (\<not> isspace (hd (trim s)) \<and> \<not> isspace (last (trim s)))"
proof (cases "trim s = []")
  case True then show ?thesis by simp
next
  case False
  define u where "u = dropWhile isspace s"
  define v where "v = dropWhile isspace (rev u)"
  have t: "trim s = rev v" by (simp add: trim_def u_def v_def)
  with False have v: "v \<noteq> []" by simp
  then have "\<not> isspace (hd v)" unfolding v_def by (rule hd_dropWhile)
  with v have l: "\<not> isspace (last (trim s))" by (simp add: t last_rev)
  have "rev u = takeWhile isspace (rev u) @ v" by (simp add: v_def)
  then have "u = rev v @ rev (takeWhile isspace (rev u))"
    by (metis rev_append rev_rev_ident)
  with v have "hd u = hd (rev v)" and "u \<noteq> []" by (metis hd_append2 rev_is_Nil_conv, auto)
  moreover from \<open>u \<noteq> []\<close> have "\<not> isspace (hd u)" unfolding u_def by (rule hd_dropWhile)
  ultimately have "\<not> isspace (hd (trim s))" by (simp add: t)
  with l show ?thesis by simp
qed

lemma trim_idem: "trim (trim s) = trim s"
  using trim_ends [of s] by (rule trim_fixed)

lemma dropWhile_isspace_toupper:
  "dropWhile isspace (map toupper s) = map toupper (dropWhile isspace s)"
  by (induction s) (simp_all add: isspace_toupper)

lemma trim_map_toupper: "trim (map toupper s) = map toupper (trim s)"
  by (simp add: trim_def dropWhile_isspace_toupper rev_map)

lemma trim_normalize: "trim (normalizeCourseNumber s) = normalizeCourseNumber s"
  by (simp add: normalizeCourseNumber_def trim_map_toupper trim_idem)

lemma toupper_normalize: "map toupper (normalizeCourseNumber s) = normalizeCourseNumber s"
  by (simp add: normalizeCourseNumber_def toupper_idem)

lemma normalize_no_lower: "ch \<in> set (normalizeCourseNumber s) \<Longrightarrow> \<not> is_lower ch"
  by (auto simp: normalizeCourseNumber_def toupper_not_lower)

section \<open>Reading tokens and lines\<close>

lemma getline_no_delim: "delim \<notin> set s \<Longrightarrow> getline delim s = (s, [])"
  by (induction s) auto

lemma getline_cases:
  "getline delim s = (token, rest) \<Longrightarrow>
     (delim \<notin> set s \<and> token = s \<and> rest = []) \<or> (s = token @ delim # rest \<and> delim \<notin> set token)"
proof (induction s arbitrary: token rest)
  case Nil then show ?case by simp
next
  case (Cons ch s)
  show ?case
  proof (cases "ch = delim")
    case True with Cons.prems show ?thesis by simp
  next
    case False
    obtain t r where g: "getline delim s = (t, r)" by (cases "getline delim s")
    with False Cons.prems have tok: "token = ch # t" and r: "r = rest" by simp_all
    from Cons.IH [OF g] False tok r show ?thesis by auto
  qed
qed

lemma getline_loop_length:
  "length (getline_loop delim s) =
     count_list s delim + (if s = [] \<or> last s = delim then 0 else 1)"
proof (induction delim s rule: getline_loop.induct)
  case (1 delim) then show ?case by simp
next
  case (2 delim ch s)
  obtain token rest where g: "getline delim (ch # s) = (token, rest)"
    by (cases "getline delim (ch # s)")
  have ih: "length (getline_loop delim rest) =
     count_list rest delim + (if rest = [] \<or> last rest = delim then 0 else 1)"
    using "2.IH" [of token rest] g by simp
  have loop: "length (getline_loop delim (ch # s)) = Suc (length (getline_loop delim rest))"
    using g by (simp del: getline.simps)
  from getline_cases [OF g] show ?case
  proof
    assume a: "delim \<notin> set (ch # s) \<and> token = ch # s \<and> rest = []"
    then have "count_list (ch # s) delim = 0" by (metis count_list_0_iff)
    moreover from a have "last (ch # s) \<noteq> delim" by (metis last_in_set list.distinct(1))
    ultimately show ?thesis using loop a by simp
  next
    assume a: "ch # s = token @ delim # rest \<and> delim \<notin> set token"
    then have "count_list token delim = 0" by (metis count_list_0_iff)
    then have c: "count_list (ch # s) delim = Suc (count_list rest delim)"
      using a by (simp only: count_list_append) simp
    have "last (ch # s) = (if rest = [] then delim else last rest)"
      using a by (simp only: last_append) simp
    then show ?thesis using loop ih c by (simp only:) auto
  qed
qed

lemma getline_loop_blank:
  assumes "trim line = []" and "line \<noteq> []"
  shows "getline_loop CHR '','' line = [line]"
proof -
  from assms(1) have "CHR '','' \<notin> set line"
    using comma_not_space by (auto simp: trim_eq_Nil_iff)
  then have "getline CHR '','' line = (line, [])" by (rule getline_no_delim)
  with assms(2) show ?thesis by (cases line) (simp_all del: getline.simps)
qed

lemma splitByComma_blank:
  assumes "trim line = []"
  shows "splitByComma line = (if line = [] then [] else [[]])"
proof (cases "line = []")
  case True then show ?thesis by (simp add: splitByComma_def)
next
  case False
  with assms have g: "getline_loop CHR '','' line = [line]" by (simp add: getline_loop_blank)
  from assms False have "isspace (last line)" by (simp add: trim_eq_Nil_iff)
  with comma_not_space have "last line \<noteq> CHR '',''" by metis
  with g assms False show ?thesis by (simp add: splitByComma_def)
qed

section \<open>The two passes of the loader\<close>

lemma buildPrereqs_eq:
  "buildPrereqs toks = filter (\<lambda>p. p \<noteq> []) (map normalizeCourseNumber toks)"
  by (induction toks) (simp_all add: Let_def)

lemma validatePrereqs_None_iff:
  "validatePrereqs keys toks = None \<longleftrightarrow> set (buildPrereqs toks) \<subseteq> keys"
  by (induction toks) (simp_all add: Let_def)

lemma validatePrereqs_find:
  "validatePrereqs keys toks = List.find (\<lambda>p. p \<notin> keys) (buildPrereqs toks)"
  by (induction toks) (simp_all add: Let_def)

lemma pass1_body_keys:
  "pass1_body line (keys, n, cerr) =
     (case validate_line line of
        None \<Rightarrow> keys
      | Some c \<Rightarrow> insert (courseNumber c) keys,
      n + 1,
      case pass1_diagnostic keys (sint (n + 1)) line of
        None \<Rightarrow> cerr
      | Some d \<Rightarrow> cerr @ [d])"
  by (auto simp: pass1_body_def validate_line_def validate_def Let_def insert_absorb
      pass1_diagnostic_def format_diagnostic_def)

lemma pass1_loop_keys:
  "fst (pass1_loop lines (keys, n, cerr)) =
     keys \<union> courseNumber ` set (List.map_filter validate_line lines)"
proof (induction lines arbitrary: keys n cerr)
  case Nil
  then show ?case by simp
next
  case (Cons line lines)
  show ?case
    by (subst pass1_loop.simps, subst pass1_body_keys, subst Cons.IH)
      (auto split: option.splits)
qed

lemma declared_keys_eq:
  "declared_keys lines = courseNumber ` set (List.map_filter validate_line lines)"
  by (simp add: declared_keys_def pass1_loop_keys)

lemma pass2_body_table:
  "pass2_body keys line (tbl, n, cerr) =
     (case validate_line line of
        None \<Rightarrow> tbl
      | Some c \<Rightarrow> if set (prerequisites c) \<subseteq> keys then insert_new tbl c else tbl,
      n + 1,
      case pass2_diagnostic keys (sint (n + 1)) line of
        None \<Rightarrow> cerr
      | Some d \<Rightarrow> cerr @ [d])"
proof -
  have sub: "set ps \<subseteq> keys \<longleftrightarrow> List.find (\<lambda>p. p \<notin> keys) ps = None" for ps
    by (auto simp: find_None_iff)
  show ?thesis
    by (auto simp: pass2_body_def validate_line_def validate_def Let_def insert_new_def
        pass2_diagnostic_def format_diagnostic_def sub
        buildPrereqs_eq [symmetric] validatePrereqs_find
        split: option.splits)
qed

lemma pass2_loop_table:
  "fst (pass2_loop keys lines (tbl, n, cerr)) = foldl insert_new tbl (accepted keys lines)"
proof (induction lines arbitrary: tbl n cerr)
  case Nil
  then show ?case by (simp add: accepted_def)
next
  case (Cons line lines)
  show ?case
    by (subst pass2_loop.simps, subst pass2_body_table, subst Cons.IH)
      (auto simp: accepted_def split: option.splits)
qed

lemma pass1_loop_append: "pass1_loop (xs @ ys) st = pass1_loop ys (pass1_loop xs st)"
  by (induction xs arbitrary: st) simp_all

lemma pass2_loop_append:
  "pass2_loop keys (xs @ ys) st = pass2_loop keys ys (pass2_loop keys xs st)"
  by (induction xs arbitrary: st) simp_all

lemma map_filter_cong_set:
  "(\<And>x. x \<in> set xs \<Longrightarrow> f x = g x) \<Longrightarrow> List.map_filter f xs = List.map_filter g xs"
  by (induction xs) (auto split: option.splits)

lemma map_filter_append_list:
  "List.map_filter f (xs @ ys) = List.map_filter f xs @ List.map_filter f ys"
  by (induction xs) (auto split: option.splits)

lemma line_number_Suc: "line_number (Suc k) = sint (word_of_nat k + 1 :: 32 word)"
  by (simp add: line_number_def add.commute)

lemma line_number_exact: "k < 2 ^ 31 \<Longrightarrow> line_number k = int k"
  unfolding line_number_def by (simp add: signed_of_nat signed_take_bit_int_eq_self)

lemma pass1_diagnostics_snoc:
  "pass1_diagnostics (xs @ [x]) =
     pass1_diagnostics xs @
       (case pass1_diagnostic (declared_keys xs) (line_number (Suc (length xs))) x of
          None \<Rightarrow> []
        | Some d \<Rightarrow> [d])"
proof -
  let ?f = "\<lambda>ls i. pass1_diagnostic (declared_keys (take i ls)) (line_number (Suc i)) (ls ! i)"
  have "List.map_filter (?f (xs @ [x])) [0..<length xs] = List.map_filter (?f xs) [0..<length xs]"
    by (rule map_filter_cong_set) (simp add: nth_append)
  then show ?thesis
    by (simp add: pass1_diagnostics_def map_filter_append_list split: option.splits)
qed

lemma pass2_diagnostics_snoc:
  "pass2_diagnostics keys (xs @ [x]) =
     pass2_diagnostics keys xs @
       (case pass2_diagnostic keys (line_number (Suc (length xs))) x of
          None \<Rightarrow> []
        | Some d \<Rightarrow> [d])"
proof -
  let ?f = "\<lambda>ls i. pass2_diagnostic keys (line_number (Suc i)) (ls ! i)"
  have "List.map_filter (?f (xs @ [x])) [0..<length xs] = List.map_filter (?f xs) [0..<length xs]"
    by (rule map_filter_cong_set) (simp add: nth_append)
  then show ?thesis
    by (simp add: pass2_diagnostics_def map_filter_append_list split: option.splits)
qed

lemma pass1_loop_state:
  "pass1_loop lines ({}, 0, cerr) =
     (declared_keys lines, word_of_nat (length lines), cerr @ pass1_diagnostics lines)"
proof (induction lines rule: rev_induct)
  case Nil
  then show ?case by (simp add: declared_keys_def pass1_diagnostics_def)
next
  case (snoc x xs)
  have k: "declared_keys (xs @ [x]) =
      (case validate_line x of
         None \<Rightarrow> declared_keys xs
       | Some c \<Rightarrow> insert (courseNumber c) (declared_keys xs))"
    by (auto simp: declared_keys_eq map_filter_append_list split: option.splits)
  show ?case
    by (simp only: pass1_loop_append snoc.IH pass1_loop.simps pass1_body_keys k
        pass1_diagnostics_snoc line_number_Suc)
      (simp add: add.commute split: option.splits)
qed

lemma pass2_loop_state:
  "pass2_loop keys lines ([], 0, cerr) =
     (foldl insert_new [] (accepted keys lines), word_of_nat (length lines),
      cerr @ pass2_diagnostics keys lines)"
proof (induction lines rule: rev_induct)
  case Nil
  then show ?case by (simp add: accepted_def pass2_diagnostics_def)
next
  case (snoc x xs)
  have a: "accepted keys (xs @ [x]) =
      accepted keys xs @
        (case validate_line x of
           None \<Rightarrow> []
         | Some c \<Rightarrow> if set (prerequisites c) \<subseteq> keys then [c] else [])"
    by (simp add: accepted_def map_filter_append_list split: option.splits)
  show ?case
    by (simp only: pass2_loop_append snoc.IH pass2_loop.simps pass2_body_table a
        pass2_diagnostics_snoc line_number_Suc)
      (simp add: add.commute split: option.splits)
qed

lemma load_streams_unopened:
  "loadCoursesFromStreams None in2 fileName = ([], [CouldNotOpen fileName])"
  by (simp add: loadCoursesFromStreams_def)

lemma load_streams_unopened2:
  "loadCoursesFromStreams (Some content1) None fileName =
     ([], pass1_diagnostics (file_lines content1) @ [CouldNotOpen fileName])"
  using pass1_loop_state [of "file_lines content1" "[]"]
  by (simp add: loadCoursesFromStreams_def file_lines_def)

lemma load_streams_read:
  "loadCoursesFromStreams (Some content1) (Some content2) fileName =
     (foldl insert_new []
        (accepted (declared_keys (file_lines content1)) (file_lines content2)),
      pass1_diagnostics (file_lines content1) @
        pass2_diagnostics (declared_keys (file_lines content1)) (file_lines content2))"
  using pass1_loop_state [of "file_lines content1" "[]"]
    pass2_loop_state [of "declared_keys (file_lines content1)" "file_lines content2"
      "pass1_diagnostics (file_lines content1)"]
  by (simp add: loadCoursesFromStreams_def file_lines_def)

lemma load_table:
  assumes "fs fileName = Some content"
  shows "fst (loadCoursesFromFile fs fileName) =
     foldl insert_new [] (accepted (declared_keys (file_lines content)) (file_lines content))"
  using assms by (simp add: loadCoursesFromFile_def load_streams_read)

lemma load_unreadable:
  "fs fileName = None \<Longrightarrow> loadCoursesFromFile fs fileName = ([], [CouldNotOpen fileName])"
  by (simp add: loadCoursesFromFile_def load_streams_unopened)

section \<open>The table that pass 2 builds\<close>

lemma update_absent: "map_of tbl k = None \<Longrightarrow> AList.update k v tbl = tbl @ [(k, v)]"
  by (induction tbl) (auto split: if_splits)

lemma insert_new_eq:
  "insert_new tbl c =
     (if map_of tbl (courseNumber c) = None then tbl @ [(courseNumber c, c)] else tbl)"
  by (simp add: insert_new_def table_find_def table_assign_def update_absent)

lemma set_foldl_insert_new:
  "set (foldl insert_new tbl cs) \<subseteq> set tbl \<union> (\<lambda>c. (courseNumber c, c)) ` set cs"
proof (induction cs arbitrary: tbl)
  case Nil
  then show ?case by simp
next
  case (Cons c cs)
  have "set (insert_new tbl c) \<subseteq> set tbl \<union> {(courseNumber c, c)}"
    by (auto simp: insert_new_eq)
  with Cons.IH [of "insert_new tbl c"] show ?case by auto
qed

lemma map_of_foldl_insert_new:
  "map_of (foldl insert_new tbl cs) k =
     (case map_of tbl k of
        Some r \<Rightarrow> Some r
      | None \<Rightarrow> List.find (\<lambda>c. courseNumber c = k) cs)"
  by (induction cs arbitrary: tbl) (auto simp: insert_new_eq split: option.splits)

lemma distinct_foldl_insert_new:
  "distinct (map fst tbl) \<Longrightarrow> distinct (map fst (foldl insert_new tbl cs))"
  by (induction cs arbitrary: tbl) (auto simp: insert_new_eq map_of_eq_None_iff)

lemma validate_line_SomeD:
  assumes "validate_line line = Some c"
  shows "courseNumber c \<noteq> [] \<and> title c \<noteq> [] \<and>
         (\<exists>tok. courseNumber c = normalizeCourseNumber tok) \<and>
         (\<forall>p\<in>set (prerequisites c). p \<noteq> [] \<and> (\<exists>tok. p = normalizeCourseNumber tok))"
  using assms by (auto simp: validate_line_def validate_def split: if_splits)

lemma load_entries:
  assumes "(k, r) \<in> set (fst (loadCoursesFromFile fs fileName))"
  shows "\<exists>content line. fs fileName = Some content \<and> line \<in> set (file_lines content) \<and>
           validate_line line = Some r \<and> k = courseNumber r \<and>
           set (prerequisites r) \<subseteq> declared_keys (file_lines content)"
proof (cases "fs fileName")
  case None
  with assms show ?thesis by (simp add: load_unreadable)
next
  case (Some content)
  let ?lines = "file_lines content"
  from assms have "(k, r) \<in> set (foldl insert_new [] (accepted (declared_keys ?lines) ?lines))"
    using load_table [of fs fileName content] Some by simp
  with set_foldl_insert_new [of "[]" "accepted (declared_keys ?lines) ?lines"]
  have "r \<in> set (accepted (declared_keys ?lines) ?lines)" and k: "k = courseNumber r" by auto
  then have "r \<in> set (List.map_filter validate_line ?lines)"
    and sub: "set (prerequisites r) \<subseteq> declared_keys ?lines"
    by (simp_all add: accepted_def)
  then obtain line where "line \<in> set ?lines" and "validate_line line = Some r"
    by (auto simp: List.map_filter_def)
  with Some k sub show ?thesis by blast
qed

lemma normalized_key:
  assumes "k = normalizeCourseNumber tok" and "k \<noteq> []"
  shows "trim k = k \<and> map toupper k = k \<and> (\<forall>ch\<in>set k. \<not> is_lower ch) \<and>
         \<not> isspace (hd k) \<and> \<not> isspace (last k)"
proof -
  have t: "trim k = k" using assms(1) by (simp add: trim_normalize)
  with trim_ends [of k] assms(2) have "\<not> isspace (hd k) \<and> \<not> isspace (last k)" by simp
  with t assms(1) show ?thesis by (simp add: toupper_normalize normalize_no_lower)
qed

section \<open>Accepted courses and lookups in the loaded table\<close>

lemma accepted_append: "accepted keys (xs @ ys) = accepted keys xs @ accepted keys ys"
  by (simp add: accepted_def List.map_filter_def)

lemma accepted_Cons:
  "accepted keys (line # lines) =
     (case validate_line line of
        None \<Rightarrow> accepted keys lines
      | Some c \<Rightarrow> if set (prerequisites c) \<subseteq> keys then c # accepted keys lines
                  else accepted keys lines)"
  by (simp add: accepted_def split: option.splits)

lemma accepted_mem:
  "c \<in> set (accepted keys lines) \<longleftrightarrow>
     (\<exists>line\<in>set lines. validate_line line = Some c) \<and> set (prerequisites c) \<subseteq> keys"
proof (induction lines)
  case Nil
  then show ?case by (simp add: accepted_def)
next
  case (Cons line lines)
  then show ?case by (auto simp: accepted_Cons split: option.splits)
qed

lemma find_append_list:
  "List.find P (xs @ ys) = (case List.find P xs of None \<Rightarrow> List.find P ys | Some x \<Rightarrow> Some x)"
  by (induction xs) simp_all

lemma count_list_distinct: "distinct xs \<Longrightarrow> x \<in> set xs \<Longrightarrow> count_list xs x = 1"
  by (induction xs) auto

lemma load_distinct: "distinct (map fst (fst (loadCoursesFromFile fs fileName)))"
proof (cases "fs fileName")
  case None
  then show ?thesis by (simp add: load_unreadable)
next
  case (Some content)
  show ?thesis
    using load_table [of fs fileName content] Some distinct_foldl_insert_new [of "[]"] by simp
qed

lemma load_find:
  assumes "fs fileName = Some content"
  shows "table_find (fst (loadCoursesFromFile fs fileName)) k =
     List.find (\<lambda>c. courseNumber c = k)
       (accepted (declared_keys (file_lines content)) (file_lines content))"
  using load_table [of fs fileName content] assms
  by (simp add: table_find_def map_of_foldl_insert_new)

lemma load_records_accepted:
  assumes "fs fileName = Some content"
  shows "snd ` set (fst (loadCoursesFromFile fs fileName))
           \<subseteq> set (accepted (declared_keys (file_lines content)) (file_lines content))"
  using load_table [of fs fileName content] assms
    set_foldl_insert_new [of "[]" "accepted (declared_keys (file_lines content)) (file_lines content)"]
  by auto

lemma printCourses_keys:
  assumes "\<forall>(k, c)\<in>set tbl. courseNumber c = k" and "set nums \<subseteq> fst ` set tbl"
  shows "\<exists>out. printCourses tbl nums = Inr out \<and> map fst (course_lines out) = nums \<and>
           (\<forall>(k, t)\<in>set (course_lines out). \<exists>c. (k, c) \<in> set tbl \<and> title c = t)"
  using assms(2)
proof (induction nums)
  case Nil
  then show ?case by simp
next
  case (Cons num nums)
  then obtain out where out: "printCourses tbl nums = Inr out"
    and keys: "map fst (course_lines out) = nums"
    and recs: "\<forall>(k, t)\<in>set (course_lines out). \<exists>c. (k, c) \<in> set tbl \<and> title c = t"
    by auto
  from Cons.prems have "num \<in> fst ` set tbl" by simp
  then obtain c where c: "map_of tbl num = Some c"
    by (cases "map_of tbl num") (auto simp: map_of_eq_None_iff)
  then have mem: "(num, c) \<in> set tbl" by (rule map_of_SomeD)
  with assms(1) have "courseNumber c = num" by auto
  with out keys recs c mem show ?case by (auto simp: table_at_def)
qed

lemma printPrereqs_map:
  "printPrereqs tbl ps =
     map (\<lambda>p. case table_find tbl p of
                 Some pc \<Rightarrow> PrereqLine (courseNumber pc) (title pc)
               | None \<Rightarrow> PrereqMissing p) ps"
  by (induction ps) (simp_all split: option.splits)

lemma load_key: "(k, r) \<in> set (fst (loadCoursesFromFile fs fileName)) \<Longrightarrow> courseNumber r = k"
  using load_entries [of k r fs fileName] by auto

lemma sorted_listing_inv:
  assumes "\<forall>(k, c)\<in>set tbl. courseNumber c = k"
  shows "sorted_listing tbl (printCourseListSorted tbl)"
proof (cases "tbl = []")
  case True
  then show ?thesis by (simp add: printCourseListSorted_def sorted_listing_def)
next
  case False
  have "set (sort (map fst tbl)) \<subseteq> fst ` set tbl" by simp
  from printCourses_keys [OF assms this] obtain out where
    out: "printCourses tbl (sort (map fst tbl)) = Inr out"
    and keys: "map fst (course_lines out) = sort (map fst tbl)"
    and recs: "\<forall>(k, t)\<in>set (course_lines out). \<exists>c. (k, c) \<in> set tbl \<and> title c = t"
    by blast
  from keys have "length (map fst (course_lines out)) = length (sort (map fst tbl))" by simp
  then have len: "length (course_lines out) = length tbl" by simp
  have "sorted (sort (map fst tbl))" by simp
  with keys have srt: "sorted (map fst (course_lines out))" by simp
  from recs have sub: "set (course_lines out) \<subseteq> (\<lambda>(k, c). (k, title c)) ` set tbl"
    by force
  from False out have "printCourseListSorted tbl = Inr out"
    by (simp add: printCourseListSorted_def)
  with len srt keys sub show ?thesis by (simp add: sorted_listing_def)
qed

lemma sample_fs_courses: "sample_fs ''courses.csv'' = Some sample_content"
  by (simp add: sample_fs_def one_file_def)

lemma sample_file_lines: "file_lines sample_content = sample_lines"
  by code_simp

section \<open>The claims\<close>

text \<open>
  Claim C1. Every key in the \<open>prerequisites\<close> of a record of the loaded table is itself a
  key of that table. The loader checks prerequisites against the set of pass 1, which also
  holds the keys of courses that pass 2 goes on to reject, so the property fails: on the
  file with the two lines "A,T,B" and "B,U,Z" the table holds course A with prerequisite B,
  course B is rejected for its prerequisite Z, and the query on A prints the
  "(missing info)" line for B.
\<close>

theorem prerequisite_missing_from_catalog:
  "loadCoursesFromFile (one_file ''f'' dangling_content) ''f'' =
     ([(''A'', \<lparr>courseNumber = ''A'', title = ''T'', prerequisites = [''B'']\<rparr>)],
      [InvalidPrereq 2 ''Z'' ''B'']) \<and>
   table_find
     (fst (loadCoursesFromFile (one_file ''f'' dangling_content) ''f''))
     ''B'' = None \<and>
   printCourseInfo
     (fst (loadCoursesFromFile (one_file ''f'' dangling_content) ''f''))
     ''a'' = [CourseLine ''A'' ''T'', PrereqHeader, PrereqMissing ''B'']"
  by code_simp

text \<open>
  Claim C2. A line of the file that validates (its key and title are well-formed) and whose
  prerequisite list holds a key that is not in the set of pass 1 is absent from the loaded
  table: no record of the table is the record of that line, the body of pass 2 leaves the
  table as it was on that line, and the key of the line is not in the table either unless
  another line declares the same key with a different record.
\<close>

theorem invalid_prerequisite_rejects_course:
  assumes "fs fileName = Some content"
    and "line \<in> set (file_lines content)"
    and "validate_line line = Some c"
    and "p \<in> set (prerequisites c)"
    and "p \<notin> fst (pass1_loop (file_lines content) ({}, 0, []))"
  shows "c \<notin> snd ` set (fst (loadCoursesFromFile fs fileName)) \<and>
         fst (pass2_body (fst (pass1_loop (file_lines content) ({}, 0, []))) line (tbl, n, cerr))
           = tbl \<and>
         ((\<forall>l\<in>set (file_lines content). \<forall>c'. validate_line l = Some c' \<longrightarrow>
              courseNumber c' = courseNumber c \<longrightarrow> c' = c) \<longrightarrow>
          table_find (fst (loadCoursesFromFile fs fileName)) (courseNumber c) = None)"
proof -
  let ?keys = "declared_keys (file_lines content)"
  have k: "fst (pass1_loop (file_lines content) ({}, 0, [])) = ?keys"
    by (simp add: declared_keys_def)
  from assms(4,5) have bad: "\<not> set (prerequisites c) \<subseteq> ?keys" by (auto simp: k)
  then have notacc: "c \<notin> set (accepted ?keys (file_lines content))" by (simp add: accepted_mem)
  with load_records_accepted [of fs fileName content] assms(1)
  have 1: "c \<notin> snd ` set (fst (loadCoursesFromFile fs fileName))" by blast
  have 2: "fst (pass2_body ?keys line (tbl, n, cerr)) = tbl"
    using bad assms(3) by (subst pass2_body_table) simp
  have 3: "table_find (fst (loadCoursesFromFile fs fileName)) (courseNumber c) = None"
    if only: "\<forall>l\<in>set (file_lines content). \<forall>c'. validate_line l = Some c' \<longrightarrow>
              courseNumber c' = courseNumber c \<longrightarrow> c' = c"
  proof -
    have "\<not> (\<exists>x. x \<in> set (accepted ?keys (file_lines content)) \<and> courseNumber x = courseNumber c)"
    proof
      assume "\<exists>x. x \<in> set (accepted ?keys (file_lines content)) \<and> courseNumber x = courseNumber c"
      then obtain x where x: "x \<in> set (accepted ?keys (file_lines content))"
        and kx: "courseNumber x = courseNumber c" by blast
      from x obtain l where "l \<in> set (file_lines content)" and "validate_line l = Some x"
        by (auto simp: accepted_mem)
      with only kx have "x = c" by blast
      with x notacc show False by simp
    qed
    then have "List.find (\<lambda>x. courseNumber x = courseNumber c)
                 (accepted ?keys (file_lines content)) = None"
      unfolding find_None_iff .
    then show ?thesis using load_find [of fs fileName content] assms(1) by simp
  qed
  from 1 2 3 show ?thesis by (simp only: k) blast
qed

theorem invalid_prerequisite_rejects_course_witness:
  "sample_fs ''courses.csv'' = Some sample_content \<and>
   ''CS300, Algo, CS201,CS999'' \<in> set (file_lines sample_content) \<and>
   validate_line ''CS300, Algo, CS201,CS999'' = Some sample_cs300 \<and>
   ''CS999'' \<in> set (prerequisites sample_cs300) \<and>
   ''CS999'' \<notin> fst (pass1_loop (file_lines sample_content) ({}, 0, [])) \<and>
   sample_cs300 \<notin> snd ` set (fst (loadCoursesFromFile sample_fs ''courses.csv'')) \<and>
   table_find (fst (loadCoursesFromFile sample_fs ''courses.csv'')) ''CS300'' = None"
proof -
  have h2: "''CS300, Algo, CS201,CS999'' \<in> set (file_lines sample_content)" by code_simp
  have h3: "validate_line ''CS300, Algo, CS201,CS999'' = Some sample_cs300" by code_simp
  have h4: "''CS999'' \<in> set (prerequisites sample_cs300)" by code_simp
  have h5: "''CS999'' \<notin> fst (pass1_loop (file_lines sample_content) ({}, 0, []))" by code_simp
  have v1: "validate_line ''CS101, Intro,'' = Some sample_cs101" by code_simp
  have v2: "validate_line ''CS201, Data, CS101'' = Some sample_cs201" by code_simp
  have v4: "validate_line ''cs101, Dup,'' = Some sample_dup" by code_simp
  have only: "\<forall>l\<in>set (file_lines sample_content). \<forall>c'. validate_line l = Some c' \<longrightarrow>
      courseNumber c' = courseNumber sample_cs300 \<longrightarrow> c' = sample_cs300"
    by (simp add: sample_file_lines sample_lines_def v1 v2 h3 v4
        sample_cs101_def sample_cs201_def sample_cs300_def sample_dup_def)
  have k: "courseNumber sample_cs300 = ''CS300''" by (simp add: sample_cs300_def)
  note T = invalid_prerequisite_rejects_course
    [where fs = sample_fs and fileName = "''courses.csv''" and content = sample_content,
     OF sample_fs_courses h2 h3 h4 h5]
  from T have a: "sample_cs300 \<notin> snd ` set (fst (loadCoursesFromFile sample_fs ''courses.csv''))"
    by (rule conjunct1)
  from T only have
    "table_find (fst (loadCoursesFromFile sample_fs ''courses.csv'')) (courseNumber sample_cs300) = None"
    by blast
  then have b: "table_find (fst (loadCoursesFromFile sample_fs ''courses.csv'')) ''CS300'' = None"
    by (simp only: k)
  from sample_fs_courses h2 h3 h4 h5 a b show ?thesis by (intro conjI)
qed

text \<open>
  Claim C3, as amended. When a key is declared on several lines that validate, the table
  does not hold zero records under it: if the prerequisites of the first line that declares
  the key are all in the set of pass 1, the table holds exactly one record under the key,
  and it is the record of that first line; later declarations of the key do not replace it.
\<close>

theorem first_declaration_wins:
  assumes "fs fileName = Some content"
    and "file_lines content = before @ line # after"
    and "validate_line line = Some c"
    and "\<forall>l\<in>set before. \<forall>c'. validate_line l = Some c' \<longrightarrow> courseNumber c' \<noteq> courseNumber c"
    and "set (prerequisites c) \<subseteq> fst (pass1_loop (file_lines content) ({}, 0, []))"
  shows "table_find (fst (loadCoursesFromFile fs fileName)) (courseNumber c) = Some c \<and>
         count_list (map fst (fst (loadCoursesFromFile fs fileName))) (courseNumber c) = 1"
proof -
  let ?keys = "declared_keys (file_lines content)"
  let ?P = "\<lambda>c'. courseNumber c' = courseNumber c"
  have none: "List.find ?P (accepted ?keys before) = None"
    unfolding find_None_iff using assms(4) by (auto simp: accepted_mem)
  have "accepted ?keys (line # after) = c # accepted ?keys after"
    using assms(3,5) by (simp add: accepted_Cons declared_keys_def)
  then have "List.find ?P (accepted ?keys (file_lines content)) = Some c"
    using none by (simp add: assms(2) accepted_append find_append_list)
  then have f: "table_find (fst (loadCoursesFromFile fs fileName)) (courseNumber c) = Some c"
    using load_find [of fs fileName content] assms(1) by simp
  then have "(courseNumber c, c) \<in> set (fst (loadCoursesFromFile fs fileName))"
    by (simp add: table_find_def map_of_SomeD)
  then have "courseNumber c \<in> set (map fst (fst (loadCoursesFromFile fs fileName)))"
    by force
  with load_distinct [of fs fileName]
  have "count_list (map fst (fst (loadCoursesFromFile fs fileName))) (courseNumber c) = 1"
    by (rule count_list_distinct)
  with f show ?thesis by (rule conjI)
qed

theorem first_declaration_wins_witness:
  "file_lines duplicate_content = [''CS201, Data, CS101''] @ ''CS101, Intro,'' # [''cs101, Dup,''] \<and>
   validate_line ''CS101, Intro,'' = Some sample_cs101 \<and>
   validate_line ''cs101, Dup,'' = Some sample_dup \<and>
   table_find (fst (loadCoursesFromFile (one_file ''f'' duplicate_content) ''f'')) ''CS101''
     = Some sample_cs101 \<and>
   count_list (map fst (fst (loadCoursesFromFile (one_file ''f'' duplicate_content) ''f''))) ''CS101''
     = 1"
proof -
  have h1: "one_file ''f'' duplicate_content ''f'' = Some duplicate_content"
    by (simp add: one_file_def)
  have h2: "file_lines duplicate_content =
      [''CS201, Data, CS101''] @ ''CS101, Intro,'' # [''cs101, Dup,'']" by code_simp
  have h3: "validate_line ''CS101, Intro,'' = Some sample_cs101" by code_simp
  have v: "validate_line ''CS201, Data, CS101'' = Some sample_cs201" by code_simp
  have d: "validate_line ''cs101, Dup,'' = Some sample_dup" by code_simp
  have h4: "\<forall>l\<in>set [''CS201, Data, CS101'']. \<forall>c'. validate_line l = Some c' \<longrightarrow>
      courseNumber c' \<noteq> courseNumber sample_cs101"
    by (simp add: v sample_cs201_def sample_cs101_def)
  have h5: "set (prerequisites sample_cs101)
      \<subseteq> fst (pass1_loop (file_lines duplicate_content) ({}, 0, []))"
    by (simp add: sample_cs101_def)
  have k: "courseNumber sample_cs101 = ''CS101''" by (simp add: sample_cs101_def)
  note T = first_declaration_wins
    [where fs = "one_file ''f'' duplicate_content" and fileName = "''f''"
       and content = duplicate_content, OF h1 h2 h3 h4 h5]
  from T have "table_find (fst (loadCoursesFromFile (one_file ''f'' duplicate_content) ''f'')) ''CS101''
     = Some sample_cs101 \<and>
     count_list (map fst (fst (loadCoursesFromFile (one_file ''f'' duplicate_content) ''f''))) ''CS101''
     = 1" by (simp only: k)
  with h2 h3 d show ?thesis by (intro conjI) simp_all
qed

text \<open>
  The claim as first stated fails on the sample file: the key CS101 is declared on two
  lines that validate, and the table holds the record of the first one.
\<close>

theorem duplicate_key_counterexample:
  "''CS101, Intro,'' \<in> set (file_lines sample_content) \<and>
   ''cs101, Dup,'' \<in> set (file_lines sample_content) \<and>
   validate_line ''CS101, Intro,'' = Some sample_cs101 \<and>
   validate_line ''cs101, Dup,'' = Some sample_dup \<and>
   courseNumber sample_cs101 = courseNumber sample_dup \<and>
   table_find (fst (loadCoursesFromFile sample_fs ''courses.csv'')) (courseNumber sample_dup)
     = Some sample_cs101"
  by code_simp

text \<open>
  Claim C4. The loader always returns a table together with what it has written to
  \<open>std::cerr\<close>, whatever the two streams deliver. When the first stream is not open, the
  table is empty and the only message says so; when the second is not open, the table is
  empty and that message follows the messages of pass 1. Otherwise the table is the one
  built, with the guarded insertion, from all accepted lines in order, and the messages are
  those of pass 1 followed by those of pass 2, one per rejected line: a bad format, a
  missing field, a duplicate key or an invalid prerequisite is reported with the number of
  its line and changes neither the key set nor the table nor what later lines do. The set
  of pass 1 holds the keys of all lines that validate. The numbers in the messages are the
  true line numbers in every file of fewer than 2147483648 lines, where the counter never
  overflows.
\<close>

theorem load_never_aborts:
  "loadCoursesFromStreams None in2 fileName = ([], [CouldNotOpen fileName]) \<and>
   loadCoursesFromStreams (Some content_a) None fileName =
     ([], pass1_diagnostics (file_lines content_a) @ [CouldNotOpen fileName]) \<and>
   loadCoursesFromStreams (Some content_a) (Some content_b) fileName =
     (foldl insert_new []
        (accepted (declared_keys (file_lines content_a)) (file_lines content_b)),
      pass1_diagnostics (file_lines content_a) @
        pass2_diagnostics (declared_keys (file_lines content_a)) (file_lines content_b)) \<and>
   loadCoursesFromFile fs fileName =
     loadCoursesFromStreams (fs fileName) (fs fileName) fileName \<and>
   (fs fileName = None \<longrightarrow>
      loadCoursesFromFile fs fileName = ([], [CouldNotOpen fileName])) \<and>
   (fs fileName = Some content \<longrightarrow>
      loadCoursesFromFile fs fileName =
        (foldl insert_new []
           (accepted (declared_keys (file_lines content)) (file_lines content)),
         pass1_diagnostics (file_lines content) @
           pass2_diagnostics (declared_keys (file_lines content)) (file_lines content))) \<and>
   declared_keys lines = courseNumber ` set (List.map_filter validate_line lines) \<and>
   (k < 2 ^ 31 \<longrightarrow> line_number k = int k)"
  by (simp add: load_streams_unopened load_streams_unopened2 load_streams_read
      loadCoursesFromFile_def declared_keys_eq line_number_exact)

theorem load_never_aborts_witness:
  "loadCoursesFromFile sample_fs ''missing.csv'' = ([], [CouldNotOpen ''missing.csv'']) \<and>
   loadCoursesFromFile sample_fs ''courses.csv'' =
     ([(''CS101'', sample_cs101), (''CS201'', sample_cs201)],
      [DuplicateCourse ''CS101'' 4, InvalidPrereq 3 ''CS999'' ''CS300'']) \<and>
   loadCoursesFromStreams (Some sample_content) None ''courses.csv'' =
     ([], [DuplicateCourse ''CS101'' 4, CouldNotOpen ''courses.csv'']) \<and>
   loadCoursesFromStreams (Some ragged_content) (Some ragged_content) ''r.csv'' =
     ([(''CS1'', \<lparr>courseNumber = ''CS1'', title = ''A'', prerequisites = []\<rparr>)],
      [BadFormat 1, MissingField 3, BadFormat 1, MissingField 3]) \<and>
   line_number 4 = 4"
proof -
  note T = load_never_aborts
    [where fs = sample_fs and content = sample_content and content_a = sample_content
       and k = 4]
  have n: "sample_fs ''missing.csv'' = None" by (simp add: sample_fs_def one_file_def)
  have t: "foldl insert_new []
      (accepted (declared_keys (file_lines sample_content)) (file_lines sample_content)) =
      [(''CS101'', sample_cs101), (''CS201'', sample_cs201)]" by code_simp
  have d1: "pass1_diagnostics (file_lines sample_content) = [DuplicateCourse ''CS101'' 4]"
    by code_simp
  have d2: "pass2_diagnostics (declared_keys (file_lines sample_content))
      (file_lines sample_content) = [InvalidPrereq 3 ''CS999'' ''CS300'']" by code_simp
  from T [where fileName = "''missing.csv''"] n
  have a: "loadCoursesFromFile sample_fs ''missing.csv'' = ([], [CouldNotOpen ''missing.csv''])"
    by blast
  from T [where fileName = "''courses.csv''"] sample_fs_courses
  have "loadCoursesFromFile sample_fs ''courses.csv'' =
        (foldl insert_new []
           (accepted (declared_keys (file_lines sample_content)) (file_lines sample_content)),
         pass1_diagnostics (file_lines sample_content) @
           pass2_diagnostics (declared_keys (file_lines sample_content))
             (file_lines sample_content))"
    by blast
  then have b: "loadCoursesFromFile sample_fs ''courses.csv'' =
     ([(''CS101'', sample_cs101), (''CS201'', sample_cs201)],
      [DuplicateCourse ''CS101'' 4, InvalidPrereq 3 ''CS999'' ''CS300''])"
    by (simp only: t d1 d2 append.simps)
  from T [where fileName = "''courses.csv''"]
  have "loadCoursesFromStreams (Some sample_content) None ''courses.csv'' =
     ([], pass1_diagnostics (file_lines sample_content) @ [CouldNotOpen ''courses.csv''])"
    by blast
  then have c: "loadCoursesFromStreams (Some sample_content) None ''courses.csv'' =
     ([], [DuplicateCourse ''CS101'' 4, CouldNotOpen ''courses.csv''])"
    by (simp only: d1 append.simps)
  have r: "(foldl insert_new []
        (accepted (declared_keys (file_lines ragged_content)) (file_lines ragged_content)),
      pass1_diagnostics (file_lines ragged_content) @
        pass2_diagnostics (declared_keys (file_lines ragged_content))
          (file_lines ragged_content)) =
     ([(''CS1'', \<lparr>courseNumber = ''CS1'', title = ''A'', prerequisites = []\<rparr>)],
      [BadFormat 1, MissingField 3, BadFormat 1, MissingField 3])" by code_simp
  from load_never_aborts
    [where content_a = ragged_content and content_b = ragged_content and fileName = "''r.csv''"]
  have "loadCoursesFromStreams (Some ragged_content) (Some ragged_content) ''r.csv'' =
     (foldl insert_new []
        (accepted (declared_keys (file_lines ragged_content)) (file_lines ragged_content)),
      pass1_diagnostics (file_lines ragged_content) @
        pass2_diagnostics (declared_keys (file_lines ragged_content))
          (file_lines ragged_content))"
    by blast
  then have e: "loadCoursesFromStreams (Some ragged_content) (Some ragged_content) ''r.csv'' =
     ([(''CS1'', \<lparr>courseNumber = ''CS1'', title = ''A'', prerequisites = []\<rparr>)],
      [BadFormat 1, MissingField 3, BadFormat 1, MissingField 3])"
    by (simp only: r)
  from T [where fileName = "''courses.csv''"] have f: "line_number 4 = 4" by simp
  from a b c e f show ?thesis by (intro conjI)
qed

text \<open>
  Claim C5. The sorted listing prints one (key, title) pair per record of the table, and the
  keys are printed in non-decreasing lexicographic order of their bytes. This holds for
  every table whose records are stored under their own \<open>courseNumber\<close>, and so for every
  table that the loader returns.
\<close>

theorem listSorted_sorted:
  "((\<forall>(k, c)\<in>set tbl. courseNumber c = k) \<longrightarrow>
      sorted_listing tbl (printCourseListSorted tbl)) \<and>
   sorted_listing (fst (loadCoursesFromFile fs fileName))
     (printCourseListSorted (fst (loadCoursesFromFile fs fileName)))"
proof -
  have "\<forall>(k, c)\<in>set (fst (loadCoursesFromFile fs fileName)). courseNumber c = k"
    using load_key [of _ _ fs fileName] by auto
  then have "sorted_listing (fst (loadCoursesFromFile fs fileName))
     (printCourseListSorted (fst (loadCoursesFromFile fs fileName)))"
    by (rule sorted_listing_inv)
  then show ?thesis using sorted_listing_inv [of tbl] by blast
qed

theorem listSorted_sorted_witness:
  "sorted_listing [(''CS201'', sample_cs201), (''CS101'', sample_cs101)]
     (printCourseListSorted [(''CS201'', sample_cs201), (''CS101'', sample_cs101)]) \<and>
   printCourseListSorted [(''CS201'', sample_cs201), (''CS101'', sample_cs101)] =
     Inr [CourseLine ''CS101'' ''Intro'', CourseLine ''CS201'' ''Data''] \<and>
   sorted_listing (fst (loadCoursesFromFile sample_fs ''courses.csv''))
     (printCourseListSorted (fst (loadCoursesFromFile sample_fs ''courses.csv'')))"
proof -
  let ?tbl = "[(''CS201'', sample_cs201), (''CS101'', sample_cs101)]"
  have inv: "\<forall>(k, c)\<in>set ?tbl. courseNumber c = k"
    by (simp add: sample_cs101_def sample_cs201_def)
  have e: "printCourseListSorted ?tbl =
      Inr [CourseLine ''CS101'' ''Intro'', CourseLine ''CS201'' ''Data'']" by code_simp
  from listSorted_sorted [of ?tbl sample_fs "''courses.csv''"] inv
  have a: "sorted_listing ?tbl (printCourseListSorted ?tbl)"
    and b: "sorted_listing (fst (loadCoursesFromFile sample_fs ''courses.csv''))
     (printCourseListSorted (fst (loadCoursesFromFile sample_fs ''courses.csv'')))"
    by blast+
  from a e b show ?thesis by (intro conjI)
qed

text \<open>
  Claim C6, as amended. On the empty table the query prints that no course data is loaded,
  whatever the key. On every other table it normalizes the raw key as the loader does
  (trim, then upper case) and looks the result up: when it is absent, the output is the
  "not found" line with the normalized key; when it is present, the output is the line of
  the record followed by its prerequisites, each stored prerequisite key resolved to the key
  and title of its record, or to the "(missing info)" line when the table has no such
  record ("Prerequisites: None" when the record has no prerequisite).
\<close>

theorem lookup_nonempty_catalog:
  "printCourseInfo [] rawKey = [NoCourseData] \<and>
   (tbl \<noteq> [] \<longrightarrow>
      (table_find tbl (map toupper (trim rawKey)) = None \<longrightarrow>
         printCourseInfo tbl rawKey = [CourseNotFound (map toupper (trim rawKey))]) \<and>
      (\<forall>c. table_find tbl (map toupper (trim rawKey)) = Some c \<longrightarrow>
         printCourseInfo tbl rawKey =
           CourseLine (courseNumber c) (title c) #
             (if prerequisites c = [] then [PrereqNone]
              else PrereqHeader #
                map (\<lambda>p. case table_find tbl p of
                            Some pc \<Rightarrow> PrereqLine (courseNumber pc) (title pc)
                          | None \<Rightarrow> PrereqMissing p) (prerequisites c))))"
  by (simp add: printCourseInfo_def normalizeCourseNumber_def printPrereqs_map)

theorem lookup_nonempty_catalog_witness:
  "printCourseInfo [(''CS101'', sample_cs101), (''CS201'', sample_cs201)] '' cs201 '' =
     [CourseLine ''CS201'' ''Data'', PrereqHeader, PrereqLine ''CS101'' ''Intro''] \<and>
   printCourseInfo [(''CS101'', sample_cs101), (''CS201'', sample_cs201)] ''cs999'' =
     [CourseNotFound ''CS999'']"
proof -
  let ?tbl = "[(''CS101'', sample_cs101), (''CS201'', sample_cs201)]"
  have ne: "?tbl \<noteq> []" by simp
  have f: "table_find ?tbl (map toupper (trim '' cs201 '')) = Some sample_cs201" by code_simp
  have m: "table_find ?tbl (map toupper (trim ''cs999'')) = None" by code_simp
  have u: "map toupper (trim ''cs999'') = ''CS999''" by code_simp
  from lookup_nonempty_catalog [of "'' cs201 ''" ?tbl] ne f
  have "printCourseInfo ?tbl '' cs201 '' =
      CourseLine (courseNumber sample_cs201) (title sample_cs201) #
        (if prerequisites sample_cs201 = [] then [PrereqNone]
         else PrereqHeader #
           map (\<lambda>p. case table_find ?tbl p of
                       Some pc \<Rightarrow> PrereqLine (courseNumber pc) (title pc)
                     | None \<Rightarrow> PrereqMissing p) (prerequisites sample_cs201))"
    by blast
  also have "\<dots> = [CourseLine ''CS201'' ''Data'', PrereqHeader, PrereqLine ''CS101'' ''Intro'']"
    by code_simp
  finally have a: "printCourseInfo ?tbl '' cs201 '' =
     [CourseLine ''CS201'' ''Data'', PrereqHeader, PrereqLine ''CS101'' ''Intro'']" .
  from lookup_nonempty_catalog [of "''cs999''" ?tbl] ne m
  have "printCourseInfo ?tbl ''cs999'' = [CourseNotFound (map toupper (trim ''cs999''))]"
    by blast
  then have "printCourseInfo ?tbl ''cs999'' = [CourseNotFound ''CS999'']" by (simp only: u)
  with a show ?thesis by (rule conjI)
qed

text \<open>
  The claim as first stated fails on the empty table: the normalized key is absent, and the
  output is not the "not found" line.
\<close>

theorem lookup_counterexample:
  "table_find [] (normalizeCourseNumber ''cs101'') = None \<and>
   printCourseInfo [] ''cs101'' = [NoCourseData] \<and>
   printCourseInfo [] ''cs101'' \<noteq> [CourseNotFound (normalizeCourseNumber ''cs101'')]"
  by (simp add: printCourseInfo_def table_find_def)

text \<open>
  Claim C7. For every line that ends with the delimiter, \<open>splitByComma\<close> returns the trimmed
  fields that the \<open>getline\<close> loop produces, followed by one more field, which is empty. The
  number of fields is then the number of commas of the line plus one.
\<close>

theorem splitByComma_trailing_comma:
  assumes "line \<noteq> []" and "last line = CHR '',''"
  shows "splitByComma line = map trim (getline_loop CHR '','' line) @ [[]] \<and>
         length (splitByComma line) = count_list line CHR '','' + 1 \<and>
         last (splitByComma line) = []"
  using assms by (simp add: splitByComma_def getline_loop_length)

theorem splitByComma_trailing_comma_witness:
  "''CS101, Intro,'' \<noteq> [] \<and> last ''CS101, Intro,'' = CHR '','' \<and>
   splitByComma ''CS101, Intro,'' = [''CS101'', ''Intro'', []] \<and>
   length (splitByComma ''CS101, Intro,'') = 3"
proof -
  have ne: "''CS101, Intro,'' \<noteq> []" by simp
  have la: "last ''CS101, Intro,'' = CHR '',''" by simp
  have toks: "map trim (getline_loop CHR '','' ''CS101, Intro,'') = [''CS101'', ''Intro'']"
    by code_simp
  have cnt: "count_list ''CS101, Intro,'' CHR '','' = 2" by code_simp
  from splitByComma_trailing_comma [OF ne la] toks cnt ne la show ?thesis by simp
qed

text \<open>
  Claim C8, as amended. The empty line has no tokens; a line of white space only has one
  token, the empty string. Both passes of the loader skip either line before they tokenize
  it: the line counter advances, and the key set, the table and \<open>std::cerr\<close> stay as they
  were.
\<close>

theorem blank_line_skipped:
  assumes "trim line = []"
  shows "splitByComma line = (if line = [] then [] else [[]]) \<and>
         pass1_body line (keys, n, cerr) = (keys, n + 1, cerr) \<and>
         pass2_body keys line (tbl, n, cerr) = (tbl, n + 1, cerr)"
  using assms by (simp add: splitByComma_blank pass1_body_def pass2_body_def)

theorem blank_line_skipped_witness:
  "trim ''  '' = [] \<and> splitByComma ''  '' = [[]] \<and>
   pass1_body ''  '' ({''CS101''}, 3, []) = ({''CS101''}, 4, []) \<and>
   pass2_body {''CS101''} ''  '' ([(''CS101'', sample_cs101)], 3, [])
     = ([(''CS101'', sample_cs101)], 4, [])"
proof -
  have h: "trim ''  '' = []" by code_simp
  from blank_line_skipped [OF h, of "{''CS101''}" 3 "[]" "[(''CS101'', sample_cs101)]"] h
  show ?thesis by simp
qed

text \<open>
  The claim as first stated fails on the line of two spaces, which has one token.
\<close>

theorem whitespace_line_counterexample:
  "trim ''  '' = [] \<and> list_all isspace ''  '' \<and> splitByComma ''  '' = [[]] \<and>
   splitByComma ''  '' \<noteq> []"
  by code_simp

text \<open>
  Claim C9. In every table that \<open>loadCoursesFromFile\<close> returns, each record is stored under
  its own \<open>courseNumber\<close>; that key and the title are not empty; the key is trimmed (trimming
  leaves it unchanged, and neither its first nor its last character is white space) and in
  upper case (\<open>toupper\<close> leaves it unchanged, and it has no lower-case letter).
\<close>

theorem catalog_key_invariant:
  assumes "(k, r) \<in> set (fst (loadCoursesFromFile fs fileName))"
  shows "courseNumber r = k \<and> k \<noteq> [] \<and> title r \<noteq> [] \<and>
         trim k = k \<and> map toupper k = k \<and> (\<forall>ch\<in>set k. \<not> is_lower ch) \<and>
         \<not> isspace (hd k) \<and> \<not> isspace (last k)"
proof -
  from load_entries [OF assms] obtain line where v: "validate_line line = Some r"
    and k: "k = courseNumber r" by blast
  from validate_line_SomeD [OF v] k obtain tok where
    "k \<noteq> []" and "title r \<noteq> []" and "k = normalizeCourseNumber tok" by auto
  with normalized_key [of k tok] k show ?thesis by simp
qed

theorem catalog_key_invariant_witness:
  "(''CS201'', sample_cs201) \<in> set (fst (loadCoursesFromFile sample_fs ''courses.csv'')) \<and>
   courseNumber sample_cs201 = ''CS201'' \<and> title sample_cs201 \<noteq> [] \<and>
   trim ''CS201'' = ''CS201'' \<and> map toupper ''CS201'' = ''CS201''"
proof -
  have h: "(''CS201'', sample_cs201) \<in> set (fst (loadCoursesFromFile sample_fs ''courses.csv''))"
    by code_simp
  from catalog_key_invariant [OF h] h show ?thesis by simp
qed



end
